theory Spec2Isabelle
  imports Complex_Main
begin

section \<open>Data model (queuectl/models.py)\<close>

text \<open>
  Instants are UTC datetimes, modelled as real seconds on an unbounded time line, so that
  \<open>utcnow() + timedelta(seconds=d)\<close> is \<open>now + d\<close>. Python floats are modelled as reals.
  Identifiers, commands and state names are only ever compared for equality and are kept
  as \<open>string\<close>. Captured output is sliced and measured, so it is a Python \<open>str\<close>: a list
  of Unicode code points.
\<close>

type_synonym datetime = real
type_synonym py_str = "nat list"

record job =
  job_id :: string
  command :: string
  state :: string
  attempts :: int
  max_retries :: int
  backoff_base :: real
  priority :: int
  run_at :: datetime
  timeout_s :: "int option"
  created_at :: datetime
  updated_at :: datetime
  locked_by :: "string option"
  locked_at :: "datetime option"
  last_exit_code :: "int option"
  stdout :: "py_str option"
  stderr :: "py_str option"
  duration_ms :: "int option"

record worker =
  worker_id :: string
  started_at :: datetime
  last_heartbeat :: datetime
  status :: string

text \<open>
  The store holds the two tables as lists of rows, in insertion order. \<open>id\<close> is the
  primary key of both tables.
\<close>

record store =
  jobs :: "job list"
  workers :: "worker list"

datatype error = ValueError | IntegrityError

section \<open>Session primitives\<close>

text \<open>\<open>session.get(Job, job_id)\<close>: the row with that primary key, if any.\<close>

definition get_job :: "store \<Rightarrow> string \<Rightarrow> job option" where
  "get_job s jid = find (\<lambda>r. job_id r = jid) (jobs s)"

text \<open>
  \<open>session.commit()\<close> after mutating a loaded job object: the row with the object's
  primary key takes the object's field values, every other row is left as it is.
\<close>

definition commit :: "job \<Rightarrow> store \<Rightarrow> store" where
  "commit j s = s\<lparr>jobs := map (\<lambda>r. if job_id r = job_id j then j else r) (jobs s)\<rparr>"

text \<open>\<open>timedelta(seconds=x)\<close>: a duration of \<open>x\<close> seconds.\<close>

definition timedelta :: "real \<Rightarrow> real" where
  "timedelta seconds = seconds"

section \<open>JobRepository.claim_job (queuectl/repo.py)\<close>

text \<open>
  The WHERE clause of the claim query. \<open>lock_timeout_s\<close> is the value of
  \<open>self.config.get_int("lock_timeout_s", 300)\<close>, \<open>now\<close> the value of \<open>utcnow()\<close>.
  A comparison with a NULL \<open>locked_at\<close> is not true in SQL.
\<close>

definition eligible :: "int \<Rightarrow> datetime \<Rightarrow> job \<Rightarrow> bool" where
  "eligible lock_timeout_s now j \<longleftrightarrow>
     (state j = ''pending'' \<or> state j = ''failed'') \<and>
     run_at j \<le> now \<and>
     (locked_by j = None \<or> locked_at j = None \<or>
      (case locked_at j of None \<Rightarrow> False | Some t \<Rightarrow> t < now - timedelta (real_of_int lock_timeout_s)))"

text \<open>
  \<open>ORDER BY run_at ASC, priority DESC, created_at ASC\<close>: \<open>sorts_before a b\<close> holds when
  row \<open>a\<close> comes strictly before row \<open>b\<close>.
\<close>

definition sorts_before :: "job \<Rightarrow> job \<Rightarrow> bool" where
  "sorts_before a b \<longleftrightarrow>
     run_at a < run_at b \<or>
     (run_at a = run_at b \<and>
       (priority b < priority a \<or>
        (priority a = priority b \<and> created_at a < created_at b)))"

text \<open>
  \<open>LIMIT 1\<close> with \<open>.first()\<close>: the first row of the ordered result, or None when the
  result is empty. SQL leaves the order of rows with equal sort keys open; here the
  earlier row of the table is taken.
\<close>

fun first_row :: "job list \<Rightarrow> job option" where
  "first_row [] = None"
| "first_row (j # js) =
     (case first_row js of
        None \<Rightarrow> Some j
      | Some k \<Rightarrow> if sorts_before k j then Some k else Some j)"

definition claim_job :: "int \<Rightarrow> datetime \<Rightarrow> string \<Rightarrow> store \<Rightarrow> job option \<times> store" where
  "claim_job lock_timeout_s now wid s =
     (case first_row (filter (eligible lock_timeout_s now) (jobs s)) of
        None \<Rightarrow> (None, s)
      | Some job \<Rightarrow>
          (let job' = job\<lparr>locked_by := Some wid, locked_at := Some now,
                           state := ''processing'', updated_at := now\<rparr>
           in (Some job', commit job' s)))"

section \<open>JobRepository.create_job\<close>

text \<open>
  \<open>ensure_utc\<close> (queuectl/utils/time.py) on the \<open>run_at\<close> argument, which is a datetime or
  an ISO string. A datetime denotes its instant. A string has a trailing \<open>Z\<close> replaced by
  \<open>+00:00\<close> and is parsed by \<open>datetime.fromisoformat\<close>, a library function taken as a
  parameter: it gives None where the library raises ValueError.
\<close>

datatype run_at_arg = Datetime datetime | IsoString string

definition endswith_Z :: "string \<Rightarrow> bool" where
  "endswith_Z dt \<longleftrightarrow> dt \<noteq> [] \<and> last dt = CHR ''Z''"

definition ensure_utc :: "(string \<Rightarrow> datetime option) \<Rightarrow> run_at_arg \<Rightarrow> error + datetime" where
  "ensure_utc fromisoformat dt =
     (case dt of
        Datetime t \<Rightarrow> Inr t
      | IsoString str \<Rightarrow>
          (let str' = (if endswith_Z str then butlast str @ ''+00:00'' else str)
           in case fromisoformat str' of None \<Rightarrow> Inl ValueError | Some t \<Rightarrow> Inr t))"

text \<open>Truth value of the \<open>run_at\<close> argument: None and the empty string are false.\<close>

fun run_at_given :: "run_at_arg option \<Rightarrow> bool" where
  "run_at_given None = False"
| "run_at_given (Some (IsoString str)) = (str \<noteq> [])"
| "run_at_given (Some (Datetime t)) = True"

text \<open>
  What \<open>create_job\<close> reads from outside its arguments: the generated \<open>str(uuid.uuid4())\<close>,
  the values \<open>snapshot["max_retries"]\<close> and \<open>snapshot["backoff_base"]\<close> of the config
  snapshot, and the three readings of \<open>utcnow()\<close> for run_at, created_at and updated_at.
\<close>

record create_reads =
  uuid4 :: string
  snapshot_max_retries :: int
  snapshot_backoff_base :: real
  now_run_at :: datetime
  now_created_at :: datetime
  now_updated_at :: datetime
  fromisoformat :: "string \<Rightarrow> datetime option"

definition create_job ::
  "create_reads \<Rightarrow> string \<Rightarrow> string option \<Rightarrow> int \<Rightarrow> run_at_arg option \<Rightarrow> int option \<Rightarrow>
   int option \<Rightarrow> real option \<Rightarrow> store \<Rightarrow> error + (job \<times> store)" where
  "create_job rd cmd jid_arg prio run_at_arg timeout_arg max_retries_arg backoff_base_arg s =
     (let jid = (case jid_arg of None \<Rightarrow> uuid4 rd | Some i \<Rightarrow> i) in
      if get_job s jid \<noteq> None then Inl ValueError
      else
        (case (if run_at_given run_at_arg
               then (case run_at_arg of Some a \<Rightarrow> ensure_utc (fromisoformat rd) a
                                      | None \<Rightarrow> Inr (now_run_at rd))
               else Inr (now_run_at rd)) of
           Inl e \<Rightarrow> Inl e
         | Inr t \<Rightarrow>
            (let job = \<lparr> job_id = jid, command = cmd, state = ''pending'', attempts = 0,
                   max_retries = (case max_retries_arg of Some m \<Rightarrow> m
                                  | None \<Rightarrow> snapshot_max_retries rd),
                   backoff_base = (case backoff_base_arg of Some b \<Rightarrow> b
                                   | None \<Rightarrow> snapshot_backoff_base rd),
                   priority = prio, run_at = t, timeout_s = timeout_arg,
                   created_at = now_created_at rd, updated_at = now_updated_at rd,
                   locked_by = None, locked_at = None, last_exit_code = None,
                   stdout = None, stderr = None, duration_ms = None \<rparr>
             in Inr (job, s\<lparr>jobs := jobs s @ [job]\<rparr>))))"

section \<open>Backoff (queuectl/locking.py)\<close>

text \<open>
  \<open>base ** attempts\<close> for a float base and an int exponent, over the reals: the rounding
  and the finite range of doubles are not modelled. Python raises ZeroDivisionError for
  a zero base with a negative exponent.
\<close>

datatype arith_error = ZeroDivisionError

definition py_pow :: "real \<Rightarrow> int \<Rightarrow> arith_error + real" where
  "py_pow base n =
     (if 0 \<le> n then Inr (base ^ nat n)
      else if base = 0 then Inl ZeroDivisionError
      else Inr (1 / base ^ nat (- n)))"

text \<open>
  \<open>random.uniform(a, b)\<close> is \<open>a + (b - a) * random()\<close>; the draw \<open>u\<close> of \<open>random()\<close> is an
  input of the model.
\<close>

definition uniform :: "real \<Rightarrow> real \<Rightarrow> real \<Rightarrow> real" where
  "uniform u a b = a + (b - a) * u"

definition calculate_backoff_delay :: "real \<Rightarrow> int \<Rightarrow> real \<Rightarrow> int \<Rightarrow> arith_error + real" where
  "calculate_backoff_delay u attempts' base max_backoff_s =
     (case py_pow base attempts' of
        Inl e \<Rightarrow> Inl e
      | Inr exponential \<Rightarrow>
          (let capped = min exponential (real_of_int max_backoff_s);
               jitter = uniform u 0 (0.5 * base)
           in Inr (capped + jitter)))"

definition get_next_run_at ::
  "real \<Rightarrow> datetime \<Rightarrow> int \<Rightarrow> real \<Rightarrow> int \<Rightarrow> arith_error + datetime" where
  "get_next_run_at u now attempts' base max_backoff_s =
     (case calculate_backoff_delay u attempts' base max_backoff_s of
        Inl e \<Rightarrow> Inl e
      | Inr delay \<Rightarrow> Inr (now + timedelta delay))"

section \<open>JobRepository.mark_success and mark_failure\<close>

text \<open>\<open>out[:8192] if out else None\<close>: a slice of a \<open>str\<close> counts code points.\<close>

definition truncate_output :: "py_str \<Rightarrow> py_str option" where
  "truncate_output out = (if out \<noteq> [] then Some (take 8192 out) else None)"

definition mark_success ::
  "datetime \<Rightarrow> string \<Rightarrow> int \<Rightarrow> py_str \<Rightarrow> py_str \<Rightarrow> int \<Rightarrow> store \<Rightarrow> store" where
  "mark_success now jid exit_code out err dur s =
     (case get_job s jid of
        None \<Rightarrow> s
      | Some job \<Rightarrow>
          commit (job\<lparr>state := ''completed'', last_exit_code := Some exit_code,
                      stdout := truncate_output out, stderr := truncate_output err,
                      duration_ms := Some dur, locked_by := None, locked_at := None,
                      updated_at := now\<rparr>) s)"

text \<open>
  What \<open>mark_failure\<close> reads from outside its arguments: \<open>utcnow()\<close> for updated_at, and on
  the retry branch \<open>self.config.get_int("max_backoff_s", 3600)\<close>, the \<open>random()\<close> draw of
  the jitter and \<open>utcnow()\<close> in \<open>get_next_run_at\<close>.
\<close>

record failure_reads =
  now_updated :: datetime
  config_max_backoff_s :: int
  random_draw :: real
  now_next_run :: datetime

text \<open>
  An exception of the backoff computation leaves \<open>mark_failure\<close> before
  \<open>session.commit()\<close>: the result is the error and no row is written.
\<close>

definition mark_failure ::
  "failure_reads \<Rightarrow> string \<Rightarrow> int \<Rightarrow> py_str \<Rightarrow> py_str \<Rightarrow> int \<Rightarrow> store \<Rightarrow> arith_error + store" where
  "mark_failure rd jid exit_code out err dur s =
     (case get_job s jid of
        None \<Rightarrow> Inr s
      | Some job \<Rightarrow>
          (let job1 = job\<lparr>attempts := attempts job + 1, last_exit_code := Some exit_code,
                           stdout := truncate_output out, stderr := truncate_output err,
                           duration_ms := Some dur, updated_at := now_updated rd\<rparr>
           in if attempts job1 \<ge> max_retries job1
              then Inr (commit (job1\<lparr>state := ''dead'', locked_by := None,
                                      locked_at := None\<rparr>) s)
              else (case get_next_run_at (random_draw rd) (now_next_run rd) (attempts job1)
                           (backoff_base job1) (config_max_backoff_s rd) of
                      Inl e \<Rightarrow> Inl e
                    | Inr t \<Rightarrow>
                        Inr (commit (job1\<lparr>state := ''failed'', run_at := t,
                                           locked_by := None, locked_at := None\<rparr>) s))))"

text \<open>The store after a call of \<open>mark_failure\<close> on store \<open>s\<close>.\<close>

definition store_after :: "store \<Rightarrow> arith_error + store \<Rightarrow> store" where
  "store_after s r = (case r of Inl e \<Rightarrow> s | Inr s' \<Rightarrow> s')"

section \<open>JobRepository.retry_dlq_job\<close>

text \<open>The two readings of \<open>utcnow()\<close> are \<open>now\<close> for run_at and \<open>now'\<close> for updated_at.\<close>

definition retry_dlq_job :: "datetime \<Rightarrow> datetime \<Rightarrow> string \<Rightarrow> store \<Rightarrow> bool \<times> store" where
  "retry_dlq_job now now' jid s =
     (case get_job s jid of
        None \<Rightarrow> (False, s)
      | Some job \<Rightarrow>
          if state job \<noteq> ''dead'' then (False, s)
          else (True, commit (job\<lparr>state := ''pending'', attempts := 0, run_at := now,
                                   locked_by := None, locked_at := None,
                                   updated_at := now'\<rparr>) s))"

section \<open>WorkerRepository.register_worker\<close>

text \<open>
  \<open>session.add\<close> of a new Worker object followed by \<open>session.commit()\<close> is an INSERT.
  \<open>workers.id\<close> is the primary key, so the INSERT of an id that is already in the table
  fails with IntegrityError and the table stays as it is.
\<close>

definition register_worker :: "datetime \<Rightarrow> string \<Rightarrow> store \<Rightarrow> error + (worker \<times> store)" where
  "register_worker now wid s =
     (let w = \<lparr> worker_id = wid, started_at = now, last_heartbeat = now,
                 status = ''active'' \<rparr>
      in if find (\<lambda>r. worker_id r = wid) (workers s) \<noteq> None then Inl IntegrityError
         else Inr (w, s\<lparr>workers := workers s @ [w]\<rparr>))"


section \<open>Worker._process_job (queuectl/worker.py)\<close>





section \<open>Size of stored text\<close>

text \<open>
  The store (SQLite) keeps text in UTF-8: a code point takes one to four bytes.
\<close>

definition utf8_len :: "nat \<Rightarrow> nat" where
  "utf8_len c = (if c < 128 then 1 else if c < 2048 then 2 else if c < 65536 then 3 else 4)"

definition byte_size :: "py_str \<Rightarrow> nat" where
  "byte_size str = sum_list (map utf8_len str)"

section \<open>Invariants of the job table\<close>

definition attempts_ok :: "job \<Rightarrow> bool" where
  "attempts_ok j \<longleftrightarrow>
     0 \<le> attempts j \<and> attempts j \<le> max_retries j \<and>
     (state j = ''dead'' \<longrightarrow> attempts j = max_retries j)"

definition attempts_inv :: "store \<Rightarrow> bool" where
  "attempts_inv s \<longleftrightarrow> (\<forall>j\<in>set (jobs s). attempts_ok j)"

definition retries_positive :: "store \<Rightarrow> bool" where
  "retries_positive s \<longleftrightarrow> (\<forall>j\<in>set (jobs s). 0 < max_retries j)"

definition lock_ok :: "job \<Rightarrow> bool" where
  "lock_ok j \<longleftrightarrow>
     (state j = ''processing'' \<longleftrightarrow> locked_by j \<noteq> None \<and> locked_at j \<noteq> None) \<and>
     (state j \<in> {''pending'', ''failed'', ''completed'', ''dead''} \<longrightarrow>
        locked_by j = None \<and> locked_at j = None)"

definition lock_inv :: "store \<Rightarrow> bool" where
  "lock_inv s \<longleftrightarrow> (\<forall>j\<in>set (jobs s). lock_ok j)"

section \<open>Example stores\<close>

definition new_job :: "string \<Rightarrow> int \<Rightarrow> int \<Rightarrow> datetime \<Rightarrow> datetime \<Rightarrow> job" where
  "new_job jid retries prio run created =
     \<lparr> job_id = jid, command = ''echo hi'', state = ''pending'', attempts = 0,
       max_retries = retries, backoff_base = 2, priority = prio, run_at = run,
       timeout_s = None, created_at = created, updated_at = created,
       locked_by = None, locked_at = None, last_exit_code = None,
       stdout = None, stderr = None, duration_ms = None \<rparr>"

definition empty_store :: store where
  "empty_store = \<lparr> jobs = [], workers = [] \<rparr>"

text \<open>Three pending jobs: L and H are ready at time 10, F is scheduled for time 5000.\<close>

definition queue_store :: store where
  "queue_store =
     \<lparr> jobs = [new_job ''L'' 3 0 10 1, new_job ''H'' 3 100 10 2, new_job ''F'' 3 1000 5000 3],
       workers = [] \<rparr>"

text \<open>
  The store after \<open>create_job("false", job_id="D", max_retries=1)\<close> on the empty store and
  one \<open>mark_failure("D", 1, "", "", 5)\<close>: the job is in the dead letter queue.
\<close>

definition dead_job :: job where
  "dead_job =
     \<lparr> job_id = ''D'', command = ''false'', state = ''dead'', attempts = 1,
       max_retries = 1, backoff_base = 2, priority = 0, run_at = 1,
       timeout_s = None, created_at = 1, updated_at = 30,
       locked_by = None, locked_at = None, last_exit_code = Some 1,
       stdout = None, stderr = None, duration_ms = Some 5 \<rparr>"

definition dlq_store :: store where
  "dlq_store = \<lparr> jobs = [dead_job], workers = [] \<rparr>"

definition example_reads :: create_reads where
  "example_reads =
     \<lparr> uuid4 = ''0b5e'', snapshot_max_retries = 3, snapshot_backoff_base = 2,
       now_run_at = 1, now_created_at = 1, now_updated_at = 1,
       fromisoformat = (\<lambda>str. None) \<rparr>"

definition example_failure :: failure_reads where
  "example_failure =
     \<lparr> now_updated = 30, config_max_backoff_s = 3600, random_draw = 1 / 2,
       now_next_run = 31 \<rparr>"


section \<open>Properties of the session primitives\<close>

lemma get_job_Some_mem: "get_job s jid = Some j \<Longrightarrow> j \<in> set (jobs s) \<and> job_id j = jid"
  unfolding get_job_def by (induction "jobs s" arbitrary: s) (auto simp: find_Some_iff)

lemma find_map_commit:
  "find (\<lambda>r. job_id r = jid) (map (\<lambda>r. if job_id r = job_id j then j else r) rs) =
     (if jid = job_id j
      then (case find (\<lambda>r. job_id r = jid) rs of None \<Rightarrow> None | Some _ \<Rightarrow> Some j)
      else find (\<lambda>r. job_id r = jid) rs)"
  by (induction rs) auto

lemma get_job_commit:
  "get_job (commit j s) jid =
     (if jid = job_id j then (case get_job s jid of None \<Rightarrow> None | Some _ \<Rightarrow> Some j)
      else get_job s jid)"
  unfolding get_job_def commit_def by (simp add: find_map_commit)

lemma jobs_commit_other:
  "r \<in> set (jobs s) \<Longrightarrow> job_id r \<noteq> job_id j \<Longrightarrow> r \<in> set (jobs (commit j s))"
  unfolding commit_def by (auto simp: image_iff intro!: bexI [of _ r])

lemma set_jobs_commit:
  "r \<in> set (jobs (commit j s)) \<Longrightarrow> r = j \<or> r \<in> set (jobs s)"
  unfolding commit_def by auto

section \<open>Properties of the claim query\<close>




lemma first_row_mem: "first_row js = Some m \<Longrightarrow> m \<in> set js"
  by (induction js arbitrary: m) (auto split: option.splits if_splits)


section \<open>C1: the claim protocol\<close>




section \<open>Properties of the outcome operations\<close>

lemma get_job_commit_same:
  "get_job s jid = Some j \<Longrightarrow> job_id j' = jid \<Longrightarrow> get_job (commit j' s) jid = Some j'"
  by (simp add: get_job_commit)

lemma get_job_id: "get_job s jid = Some j \<Longrightarrow> job_id j = jid"
  by (simp add: get_job_Some_mem)



lemma mark_failure_absent: "get_job s jid = None \<Longrightarrow> mark_failure rd jid ec out err dur s = Inr s"
  by (simp add: mark_failure_def)

lemma mark_failure_dead:
  assumes "get_job s jid = Some j" "max_retries j \<le> attempts j + 1"
  shows "mark_failure rd jid ec out err dur s =
     Inr (commit (j\<lparr>attempts := attempts j + 1, last_exit_code := Some ec,
                    stdout := truncate_output out, stderr := truncate_output err,
                    duration_ms := Some dur, updated_at := now_updated rd,
                    state := ''dead'', locked_by := None, locked_at := None\<rparr>) s)"
  using assms by (simp add: mark_failure_def Let_def)

lemma mark_failure_retry:
  assumes "get_job s jid = Some j" "attempts j + 1 < max_retries j"
    "calculate_backoff_delay (random_draw rd) (attempts j + 1) (backoff_base j)
       (config_max_backoff_s rd) = Inr d"
  shows "mark_failure rd jid ec out err dur s =
     Inr (commit (j\<lparr>attempts := attempts j + 1, last_exit_code := Some ec,
                    stdout := truncate_output out, stderr := truncate_output err,
                    duration_ms := Some dur, updated_at := now_updated rd,
                    state := ''failed'', run_at := now_next_run rd + d,
                    locked_by := None, locked_at := None\<rparr>) s)"
  using assms by (simp add: mark_failure_def Let_def get_next_run_at_def timedelta_def)

lemma mark_failure_raises:
  assumes "get_job s jid = Some j" "attempts j + 1 < max_retries j"
    "calculate_backoff_delay (random_draw rd) (attempts j + 1) (backoff_base j)
       (config_max_backoff_s rd) = Inl e"
  shows "mark_failure rd jid ec out err dur s = Inl e"
  using assms by (simp add: mark_failure_def Let_def get_next_run_at_def)

text \<open>Every store that \<open>mark_failure\<close> returns for a job in the table is a commit of the
  job with attempts incremented, outcome stored, lock cleared and state dead or failed.\<close>

lemma mark_failure_cases:
  assumes g: "get_job s jid = Some j" and r: "mark_failure rd jid ec out err dur s = Inr s'"
  shows "\<exists>st t. (st = ''dead'' \<or> st = ''failed'') \<and>
     (st = ''dead'' \<longleftrightarrow> max_retries j \<le> attempts j + 1) \<and>
     s' = commit (j\<lparr>attempts := attempts j + 1, last_exit_code := Some ec,
                    stdout := truncate_output out, stderr := truncate_output err,
                    duration_ms := Some dur, updated_at := now_updated rd,
                    state := st, run_at := t,
                    locked_by := None, locked_at := None\<rparr>) s"
proof (cases "max_retries j \<le> attempts j + 1")
  case True
  from mark_failure_dead [OF g True, of rd ec out err dur] r
  have "s' = commit (j\<lparr>attempts := attempts j + 1, last_exit_code := Some ec,
                    stdout := truncate_output out, stderr := truncate_output err,
                    duration_ms := Some dur, updated_at := now_updated rd,
                    state := ''dead'', run_at := run_at j,
                    locked_by := None, locked_at := None\<rparr>) s"
    by simp
  with True show ?thesis by blast
next
  case False
  then have lt: "attempts j + 1 < max_retries j" by simp
  show ?thesis
  proof (cases "calculate_backoff_delay (random_draw rd) (attempts j + 1) (backoff_base j)
       (config_max_backoff_s rd)")
    case (Inl e)
    from mark_failure_raises [OF g lt Inl, of ec out err dur] r show ?thesis by simp
  next
    case (Inr d)
    from mark_failure_retry [OF g lt Inr, of ec out err dur] r
    have "s' = commit (j\<lparr>attempts := attempts j + 1, last_exit_code := Some ec,
                    stdout := truncate_output out, stderr := truncate_output err,
                    duration_ms := Some dur, updated_at := now_updated rd,
                    state := ''failed'', run_at := now_next_run rd + d,
                    locked_by := None, locked_at := None\<rparr>) s"
      by simp
    with False show ?thesis by blast
  qed
qed


section \<open>C7: retry from the dead letter queue\<close>

text \<open>
  C7. \<open>retry_dlq_job\<close> returns True exactly when the job exists and its state is dead.
  Then the stored job is the old one with state pending, attempts 0, the lock fields
  cleared, and run_at and updated_at set to the current time (\<open>now\<close> and \<open>now'\<close> are the
  readings of \<open>utcnow()\<close> taken for the two fields); rows with other ids are kept. When
  it returns False the store is unchanged.
\<close>

theorem retry_dlq_job_correct:
  "(fst (retry_dlq_job now now' jid s) \<longleftrightarrow> (\<exists>j. get_job s jid = Some j \<and> state j = ''dead'')) \<and>
   (\<forall>j. get_job s jid = Some j \<and> state j = ''dead'' \<longrightarrow>
      (\<exists>s' j'. retry_dlq_job now now' jid s = (True, s') \<and> get_job s' jid = Some j' \<and>
         j' = j\<lparr>state := ''pending'', attempts := 0, run_at := now,
                 locked_by := None, locked_at := None, updated_at := now'\<rparr> \<and>
         (\<forall>r\<in>set (jobs s). job_id r \<noteq> jid \<longrightarrow> r \<in> set (jobs s')))) \<and>
   (\<not> fst (retry_dlq_job now now' jid s) \<longrightarrow> snd (retry_dlq_job now now' jid s) = s)"
proof (intro conjI allI impI)
  show "fst (retry_dlq_job now now' jid s) \<longleftrightarrow> (\<exists>j. get_job s jid = Some j \<and> state j = ''dead'')"
    by (auto simp: retry_dlq_job_def split: option.splits)
next
  fix j
  assume a: "get_job s jid = Some j \<and> state j = ''dead''"
  define j' where "j' = j\<lparr>state := ''pending'', attempts := 0, run_at := now,
                 locked_by := None, locked_at := None, updated_at := now'\<rparr>"
  have id: "job_id j' = jid" using a get_job_id [of s jid j] by (simp add: j'_def)
  have r: "retry_dlq_job now now' jid s = (True, commit j' s)"
    using a by (simp add: retry_dlq_job_def j'_def)
  have g: "get_job (commit j' s) jid = Some j'"
    using a id by (simp add: get_job_commit_same)
  have f: "\<forall>r\<in>set (jobs s). job_id r \<noteq> jid \<longrightarrow> r \<in> set (jobs (commit j' s))"
    using id jobs_commit_other [of _ s j'] by simp
  from r g f show "\<exists>s' j'. retry_dlq_job now now' jid s = (True, s') \<and> get_job s' jid = Some j' \<and>
         j' = j\<lparr>state := ''pending'', attempts := 0, run_at := now,
                 locked_by := None, locked_at := None, updated_at := now'\<rparr> \<and>
         (\<forall>r\<in>set (jobs s). job_id r \<noteq> jid \<longrightarrow> r \<in> set (jobs s'))"
    unfolding j'_def by blast
next
  assume "\<not> fst (retry_dlq_job now now' jid s)"
  then show "snd (retry_dlq_job now now' jid s) = s"
    by (auto simp: retry_dlq_job_def split: option.splits if_splits)
qed

text \<open>
  The dead job D is retried; the pending job L and an unknown id are refused and the
  store stays as it is.
\<close>

theorem retry_dlq_job_correct_witness:
  "get_job dlq_store ''D'' = Some dead_job \<and> state dead_job = ''dead'' \<and>
   retry_dlq_job 50 51 ''D'' dlq_store =
     (True, \<lparr> jobs = [dead_job\<lparr>state := ''pending'', attempts := 0, run_at := 50,
                         locked_by := None, locked_at := None, updated_at := 51\<rparr>],
              workers = [] \<rparr>) \<and>
   retry_dlq_job 50 51 ''L'' queue_store = (False, queue_store) \<and>
   retry_dlq_job 50 51 ''missing'' queue_store = (False, queue_store)"
  using retry_dlq_job_correct [of 50 51 "''D''" dlq_store]
        retry_dlq_job_correct [of 50 51 "''L''" queue_store]
        retry_dlq_job_correct [of 50 51 "''missing''" queue_store]
  by (simp add: retry_dlq_job_def get_job_def dlq_store_def dead_job_def queue_store_def
      new_job_def commit_def)

lemma mark_success_present:
  "get_job s jid = Some j \<Longrightarrow>
     mark_success now jid ec out err dur s =
       commit (j\<lparr>state := ''completed'', last_exit_code := Some ec,
                  stdout := truncate_output out, stderr := truncate_output err,
                  duration_ms := Some dur, locked_by := None, locked_at := None,
                  updated_at := now\<rparr>) s"
  by (simp add: mark_success_def)

lemma get_job_mark_success:
  assumes "get_job s jid = Some j"
  shows "get_job (mark_success now jid ec out err dur s) jid =
       Some (j\<lparr>state := ''completed'', last_exit_code := Some ec,
                  stdout := truncate_output out, stderr := truncate_output err,
                  duration_ms := Some dur, locked_by := None, locked_at := None,
                  updated_at := now\<rparr>)"
  using assms get_job_id [OF assms]
  by (simp add: mark_success_present get_job_commit_same)


section \<open>C4: recording a failure\<close>



section \<open>C9: empty output\<close>



section \<open>C10: the exit code of a completed job\<close>




section \<open>The store after each operation\<close>

lemma create_job_result:
  assumes "create_job rd cmd jid_arg prio ra ta mra bba s = Inr (j, s')"
  shows "s' = s\<lparr>jobs := jobs s @ [j]\<rparr> \<and> state j = ''pending'' \<and> attempts j = 0 \<and>
     locked_by j = None \<and> locked_at j = None \<and>
     max_retries j = (case mra of Some m \<Rightarrow> m | None \<Rightarrow> snapshot_max_retries rd) \<and>
     get_job s (job_id j) = None"
  using assms
  by (auto simp: create_job_def Let_def split: if_splits sum.splits option.splits)

lemma claim_job_cases:
  "claim_job lts now wid s = (None, s) \<or>
   (\<exists>j\<in>set (jobs s). eligible lts now j \<and>
      claim_job lts now wid s =
        (Some (j\<lparr>locked_by := Some wid, locked_at := Some now,
                  state := ''processing'', updated_at := now\<rparr>),
         commit (j\<lparr>locked_by := Some wid, locked_at := Some now,
                  state := ''processing'', updated_at := now\<rparr>) s))"
proof (cases "first_row (filter (eligible lts now) (jobs s))")
  case None
  then show ?thesis by (simp add: claim_job_def)
next
  case (Some j)
  from first_row_mem [OF Some] have "j \<in> set (jobs s)" "eligible lts now j" by auto
  moreover from Some have "claim_job lts now wid s =
        (Some (j\<lparr>locked_by := Some wid, locked_at := Some now,
                  state := ''processing'', updated_at := now\<rparr>),
         commit (j\<lparr>locked_by := Some wid, locked_at := Some now,
                  state := ''processing'', updated_at := now\<rparr>) s)"
    by (simp add: claim_job_def Let_def)
  ultimately show ?thesis by blast
qed

lemma retry_dlq_job_cases:
  "retry_dlq_job now now' jid s = (False, s) \<or>
   (\<exists>j. get_job s jid = Some j \<and> state j = ''dead'' \<and>
      retry_dlq_job now now' jid s =
        (True, commit (j\<lparr>state := ''pending'', attempts := 0, run_at := now,
                         locked_by := None, locked_at := None, updated_at := now'\<rparr>) s))"
  by (auto simp: retry_dlq_job_def split: option.splits)

lemma mark_success_cases:
  "mark_success now jid ec out err dur s = s \<or>
   (\<exists>j. get_job s jid = Some j \<and>
      mark_success now jid ec out err dur s =
       commit (j\<lparr>state := ''completed'', last_exit_code := Some ec,
                  stdout := truncate_output out, stderr := truncate_output err,
                  duration_ms := Some dur, locked_by := None, locked_at := None,
                  updated_at := now\<rparr>) s)"
  by (auto simp: mark_success_def split: option.splits)

lemma store_after_mark_failure_cases:
  "store_after s (mark_failure rd jid ec out err dur s) = s \<or>
   (\<exists>j st t. get_job s jid = Some j \<and> (st = ''dead'' \<or> st = ''failed'') \<and>
     (st = ''dead'' \<longleftrightarrow> max_retries j \<le> attempts j + 1) \<and>
     store_after s (mark_failure rd jid ec out err dur s) =
       commit (j\<lparr>attempts := attempts j + 1, last_exit_code := Some ec,
                    stdout := truncate_output out, stderr := truncate_output err,
                    duration_ms := Some dur, updated_at := now_updated rd,
                    state := st, run_at := t,
                    locked_by := None, locked_at := None\<rparr>) s)"
proof (cases "mark_failure rd jid ec out err dur s")
  case (Inl e)
  then show ?thesis by (simp add: store_after_def)
next
  case (Inr s')
  show ?thesis
  proof (cases "get_job s jid")
    case None
    with Inr mark_failure_absent [OF None, of rd ec out err dur] show ?thesis
      by (simp add: store_after_def)
  next
    case (Some j)
    from mark_failure_cases [OF Some Inr] Some Inr show ?thesis
      by (simp add: store_after_def)
  qed
qed

text \<open>
  The primary key: \<open>create_job\<close> refuses an id that is in the table, so ids stay distinct,
  and a commit keeps the ids of all rows.
\<close>

lemma create_job_distinct:
  assumes "distinct (map job_id (jobs s))"
    "create_job rd cmd jid_arg prio ra ta mra bba s = Inr (j, s')"
  shows "distinct (map job_id (jobs s'))"
proof -
  from create_job_result [OF assms(2)] have s': "s' = s\<lparr>jobs := jobs s @ [j]\<rparr>"
    and n: "get_job s (job_id j) = None" by auto
  from n have "job_id j \<notin> job_id ` set (jobs s)"
    unfolding get_job_def by (auto simp: find_None_iff)
  with assms(1) s' show ?thesis by simp
qed

lemma map_job_id_commit: "map job_id (jobs (commit j s)) = map job_id (jobs s)"
  unfolding commit_def by (induction "jobs s" arbitrary: s) auto

section \<open>C8: the lock invariant\<close>

lemma lock_inv_commit: "lock_inv s \<Longrightarrow> lock_ok j \<Longrightarrow> lock_inv (commit j s)"
  unfolding lock_inv_def using set_jobs_commit by blast

lemma lock_inv_append: "lock_inv s \<Longrightarrow> lock_ok j \<Longrightarrow> lock_inv (s\<lparr>jobs := jobs s @ [j]\<rparr>)"
  unfolding lock_inv_def by auto

lemma lock_inv_create_job:
  assumes "lock_inv s" "create_job rd cmd jid_arg prio ra ta mra bba s = Inr (j, s')"
  shows "lock_inv s'"
proof -
  from create_job_result [OF assms(2)] have s': "s' = s\<lparr>jobs := jobs s @ [j]\<rparr>"
    and "lock_ok j" by (auto simp: lock_ok_def)
  with assms(1) show ?thesis by (simp add: lock_inv_append)
qed

lemma lock_inv_claim_job:
  assumes "lock_inv s"
  shows "lock_inv (snd (claim_job lts now wid s))"
  using claim_job_cases [of lts now wid s] assms
  by (auto simp: lock_ok_def intro!: lock_inv_commit)

lemma lock_inv_mark_success:
  assumes "lock_inv s"
  shows "lock_inv (mark_success now jid ec out err dur s)"
  using mark_success_cases [of now jid ec out err dur s] assms
  by (auto simp: lock_ok_def intro!: lock_inv_commit)

lemma lock_inv_mark_failure:
  assumes "lock_inv s"
  shows "lock_inv (store_after s (mark_failure rd jid ec out err dur s))"
  using store_after_mark_failure_cases [of s rd jid ec out err dur] assms
  by (auto simp: lock_ok_def intro!: lock_inv_commit)

lemma lock_inv_retry_dlq_job:
  assumes "lock_inv s"
  shows "lock_inv (snd (retry_dlq_job now now' jid s))"
  using retry_dlq_job_cases [of now now' jid s] assms
  by (auto simp: lock_ok_def intro!: lock_inv_commit)

text \<open>
  C8. If every job of the store has state processing exactly when locked_by and
  locked_at are both set, and has both null in the states pending, failed, completed and
  dead, then the same holds of the store after \<open>create_job\<close>, \<open>claim_job\<close>,
  \<open>mark_success\<close>, \<open>mark_failure\<close> and \<open>retry_dlq_job\<close>.
\<close>

theorem lock_invariant_preserved:
  assumes "lock_inv s"
  shows "(\<forall>j s'. create_job crd cmd jid_arg prio ra ta mra bba s = Inr (j, s') \<longrightarrow> lock_inv s') \<and>
     lock_inv (snd (claim_job lts now wid s)) \<and>
     lock_inv (mark_success now jid ec out err dur s) \<and>
     lock_inv (store_after s (mark_failure frd jid ec out err dur s)) \<and>
     lock_inv (snd (retry_dlq_job now now' jid s))"
proof (intro conjI allI impI)
  fix j s'
  assume "create_job crd cmd jid_arg prio ra ta mra bba s = Inr (j, s')"
  then show "lock_inv s'" by (rule lock_inv_create_job [OF assms])
qed (simp_all add: assms lock_inv_claim_job lock_inv_mark_success lock_inv_mark_failure
      lock_inv_retry_dlq_job)

text \<open>The example queue satisfies the lock invariant, before and after each operation.\<close>

theorem lock_invariant_preserved_witness:
  "lock_inv queue_store \<and>
   create_job example_reads ''echo hi'' (Some ''N'') 0 None None None None queue_store =
     Inr (new_job ''N'' 3 0 1 1, queue_store\<lparr>jobs := jobs queue_store @ [new_job ''N'' 3 0 1 1]\<rparr>) \<and>
   lock_inv (queue_store\<lparr>jobs := jobs queue_store @ [new_job ''N'' 3 0 1 1]\<rparr>) \<and>
   lock_inv (snd (claim_job 300 20 ''worker-1'' queue_store)) \<and>
   lock_inv (mark_success 20 ''H'' 0 [] [] 12 queue_store) \<and>
   lock_inv (store_after queue_store (mark_failure example_failure ''H'' 0 [] [] 12 queue_store)) \<and>
   lock_inv (snd (retry_dlq_job 20 51 ''H'' queue_store))"
proof -
  have h: "lock_inv queue_store"
    by (simp add: lock_inv_def lock_ok_def queue_store_def new_job_def)
  have c: "create_job example_reads ''echo hi'' (Some ''N'') 0 None None None None queue_store =
     Inr (new_job ''N'' 3 0 1 1, queue_store\<lparr>jobs := jobs queue_store @ [new_job ''N'' 3 0 1 1]\<rparr>)"
    by (simp add: create_job_def get_job_def queue_store_def new_job_def example_reads_def Let_def)
  from h c lock_invariant_preserved [OF h, where crd = example_reads and cmd = "''echo hi''"
      and jid_arg = "Some ''N''" and prio = 0 and ra = None and ta = None and mra = None
      and bba = None and lts = 300 and now = 20 and wid = "''worker-1''" and jid = "''H''"
      and ec = 0 and out = "[]" and err = "[]" and dur = 12 and frd = example_failure
      and now' = 51]
  show ?thesis by blast
qed

section \<open>C3: the attempts invariant\<close>

lemma attempts_inv_commit: "attempts_inv s \<Longrightarrow> attempts_ok j \<Longrightarrow> attempts_inv (commit j s)"
  unfolding attempts_inv_def using set_jobs_commit by blast

lemma retries_positive_commit:
  "retries_positive s \<Longrightarrow> 0 < max_retries j \<Longrightarrow> retries_positive (commit j s)"
  unfolding retries_positive_def using set_jobs_commit by blast

lemma attempts_inv_mem: "attempts_inv s \<Longrightarrow> j \<in> set (jobs s) \<Longrightarrow> attempts_ok j"
  by (simp add: attempts_inv_def)

lemma retries_positive_mem: "retries_positive s \<Longrightarrow> j \<in> set (jobs s) \<Longrightarrow> 0 < max_retries j"
  by (simp add: retries_positive_def)

lemma get_job_mem: "get_job s jid = Some j \<Longrightarrow> j \<in> set (jobs s)"
  by (simp add: get_job_Some_mem)

lemma attempts_create_job:
  assumes "attempts_inv s" "retries_positive s"
    "create_job rd cmd jid_arg prio ra ta mra bba s = Inr (j, s')" "0 < max_retries j"
  shows "attempts_inv s' \<and> retries_positive s'"
proof -
  from create_job_result [OF assms(3)] have s': "s' = s\<lparr>jobs := jobs s @ [j]\<rparr>"
    and "state j = ''pending''" "attempts j = 0" by auto
  with assms(4) have "attempts_ok j" by (simp add: attempts_ok_def)
  with assms s' show ?thesis by (auto simp: attempts_inv_def retries_positive_def)
qed

lemma attempts_claim_job:
  assumes "attempts_inv s" "retries_positive s"
  shows "attempts_inv (snd (claim_job lts now wid s)) \<and>
     retries_positive (snd (claim_job lts now wid s))"
proof -
  from claim_job_cases [of lts now wid s] show ?thesis
  proof
    assume "claim_job lts now wid s = (None, s)"
    with assms show ?thesis by simp
  next
    assume "\<exists>j\<in>set (jobs s). eligible lts now j \<and>
      claim_job lts now wid s =
        (Some (j\<lparr>locked_by := Some wid, locked_at := Some now,
                  state := ''processing'', updated_at := now\<rparr>),
         commit (j\<lparr>locked_by := Some wid, locked_at := Some now,
                  state := ''processing'', updated_at := now\<rparr>) s)"
    then obtain j where j: "j \<in> set (jobs s)" and c: "claim_job lts now wid s =
        (Some (j\<lparr>locked_by := Some wid, locked_at := Some now,
                  state := ''processing'', updated_at := now\<rparr>),
         commit (j\<lparr>locked_by := Some wid, locked_at := Some now,
                  state := ''processing'', updated_at := now\<rparr>) s)" by blast
    from attempts_inv_mem [OF assms(1) j] retries_positive_mem [OF assms(2) j]
    have "attempts_ok (j\<lparr>locked_by := Some wid, locked_at := Some now,
                  state := ''processing'', updated_at := now\<rparr>)"
      and "0 < max_retries (j\<lparr>locked_by := Some wid, locked_at := Some now,
                  state := ''processing'', updated_at := now\<rparr>)"
      by (simp_all add: attempts_ok_def)
    with assms c show ?thesis
      by (simp add: attempts_inv_commit retries_positive_commit)
  qed
qed

lemma attempts_mark_success:
  assumes "attempts_inv s" "retries_positive s"
  shows "attempts_inv (mark_success now jid ec out err dur s) \<and>
     retries_positive (mark_success now jid ec out err dur s)"
proof -
  from mark_success_cases [of now jid ec out err dur s] show ?thesis
  proof
    assume "mark_success now jid ec out err dur s = s"
    with assms show ?thesis by simp
  next
    assume "\<exists>j. get_job s jid = Some j \<and>
      mark_success now jid ec out err dur s =
       commit (j\<lparr>state := ''completed'', last_exit_code := Some ec,
                  stdout := truncate_output out, stderr := truncate_output err,
                  duration_ms := Some dur, locked_by := None, locked_at := None,
                  updated_at := now\<rparr>) s"
    then obtain j where g: "get_job s jid = Some j" and c:
      "mark_success now jid ec out err dur s =
       commit (j\<lparr>state := ''completed'', last_exit_code := Some ec,
                  stdout := truncate_output out, stderr := truncate_output err,
                  duration_ms := Some dur, locked_by := None, locked_at := None,
                  updated_at := now\<rparr>) s" by blast
    note j = get_job_mem [OF g]
    from attempts_inv_mem [OF assms(1) j] retries_positive_mem [OF assms(2) j]
    have "attempts_ok (j\<lparr>state := ''completed'', last_exit_code := Some ec,
                  stdout := truncate_output out, stderr := truncate_output err,
                  duration_ms := Some dur, locked_by := None, locked_at := None,
                  updated_at := now\<rparr>)"
      and "0 < max_retries (j\<lparr>state := ''completed'', last_exit_code := Some ec,
                  stdout := truncate_output out, stderr := truncate_output err,
                  duration_ms := Some dur, locked_by := None, locked_at := None,
                  updated_at := now\<rparr>)"
      by (simp_all add: attempts_ok_def)
    with assms c show ?thesis
      by (simp add: attempts_inv_commit retries_positive_commit)
  qed
qed

lemma attempts_retry_dlq_job:
  assumes "attempts_inv s" "retries_positive s"
  shows "attempts_inv (snd (retry_dlq_job now now' jid s)) \<and>
     retries_positive (snd (retry_dlq_job now now' jid s))"
proof -
  from retry_dlq_job_cases [of now now' jid s] show ?thesis
  proof
    assume "retry_dlq_job now now' jid s = (False, s)"
    with assms show ?thesis by simp
  next
    assume "\<exists>j. get_job s jid = Some j \<and> state j = ''dead'' \<and>
      retry_dlq_job now now' jid s =
        (True, commit (j\<lparr>state := ''pending'', attempts := 0, run_at := now,
                         locked_by := None, locked_at := None, updated_at := now'\<rparr>) s)"
    then obtain j where g: "get_job s jid = Some j" and c:
      "retry_dlq_job now now' jid s =
        (True, commit (j\<lparr>state := ''pending'', attempts := 0, run_at := now,
                         locked_by := None, locked_at := None, updated_at := now'\<rparr>) s)"
      by blast
    note j = get_job_mem [OF g]
    from retries_positive_mem [OF assms(2) j]
    have "attempts_ok (j\<lparr>state := ''pending'', attempts := 0, run_at := now,
                         locked_by := None, locked_at := None, updated_at := now'\<rparr>)"
      and "0 < max_retries (j\<lparr>state := ''pending'', attempts := 0, run_at := now,
                         locked_by := None, locked_at := None, updated_at := now'\<rparr>)"
      by (simp_all add: attempts_ok_def)
    with assms c show ?thesis
      by (simp add: attempts_inv_commit retries_positive_commit)
  qed
qed

lemma attempts_mark_failure:
  assumes "attempts_inv s" "retries_positive s"
    and lt: "\<forall>j. get_job s jid = Some j \<longrightarrow> attempts j < max_retries j"
  shows "attempts_inv (store_after s (mark_failure rd jid ec out err dur s)) \<and>
     retries_positive (store_after s (mark_failure rd jid ec out err dur s))"
proof -
  from store_after_mark_failure_cases [of s rd jid ec out err dur] show ?thesis
  proof
    assume "store_after s (mark_failure rd jid ec out err dur s) = s"
    with assms show ?thesis by simp
  next
    assume "\<exists>j st t. get_job s jid = Some j \<and> (st = ''dead'' \<or> st = ''failed'') \<and>
     (st = ''dead'' \<longleftrightarrow> max_retries j \<le> attempts j + 1) \<and>
     store_after s (mark_failure rd jid ec out err dur s) =
       commit (j\<lparr>attempts := attempts j + 1, last_exit_code := Some ec,
                    stdout := truncate_output out, stderr := truncate_output err,
                    duration_ms := Some dur, updated_at := now_updated rd,
                    state := st, run_at := t,
                    locked_by := None, locked_at := None\<rparr>) s"
    then obtain j st t where g: "get_job s jid = Some j"
      and "st = ''dead'' \<or> st = ''failed''"
      and st: "st = ''dead'' \<longleftrightarrow> max_retries j \<le> attempts j + 1"
      and c: "store_after s (mark_failure rd jid ec out err dur s) =
       commit (j\<lparr>attempts := attempts j + 1, last_exit_code := Some ec,
                    stdout := truncate_output out, stderr := truncate_output err,
                    duration_ms := Some dur, updated_at := now_updated rd,
                    state := st, run_at := t,
                    locked_by := None, locked_at := None\<rparr>) s"
      by blast
    note j = get_job_mem [OF g]
    from lt g have "attempts j < max_retries j" by simp
    with attempts_inv_mem [OF assms(1) j] retries_positive_mem [OF assms(2) j] st
    have "attempts_ok (j\<lparr>attempts := attempts j + 1, last_exit_code := Some ec,
                    stdout := truncate_output out, stderr := truncate_output err,
                    duration_ms := Some dur, updated_at := now_updated rd,
                    state := st, run_at := t,
                    locked_by := None, locked_at := None\<rparr>)"
      and "0 < max_retries (j\<lparr>attempts := attempts j + 1, last_exit_code := Some ec,
                    stdout := truncate_output out, stderr := truncate_output err,
                    duration_ms := Some dur, updated_at := now_updated rd,
                    state := st, run_at := t,
                    locked_by := None, locked_at := None\<rparr>)"
      by (simp_all add: attempts_ok_def)
    with assms c show ?thesis
      by (simp add: attempts_inv_commit retries_positive_commit)
  qed
qed

text \<open>
  C3, amended. On a store where every job has 0 < max_retries, 0 \<le> attempts \<le> max_retries
  and attempts = max_retries when dead, the same holds after \<open>create_job\<close> (of a job with
  positive max_retries), \<open>claim_job\<close>, \<open>mark_success\<close> and \<open>retry_dlq_job\<close>, and after
  \<open>mark_failure\<close> when the job it is applied to has attempts < max_retries.
\<close>

theorem attempts_invariant_preserved:
  assumes "attempts_inv s" "retries_positive s"
  shows "(\<forall>j s'. create_job crd cmd jid_arg prio ra ta mra bba s = Inr (j, s') \<and>
             0 < max_retries j \<longrightarrow> attempts_inv s' \<and> retries_positive s') \<and>
     (attempts_inv (snd (claim_job lts now wid s)) \<and>
      retries_positive (snd (claim_job lts now wid s))) \<and>
     (attempts_inv (mark_success now jid ec out err dur s) \<and>
      retries_positive (mark_success now jid ec out err dur s)) \<and>
     ((\<forall>j. get_job s jid = Some j \<longrightarrow> attempts j < max_retries j) \<longrightarrow>
        attempts_inv (store_after s (mark_failure frd jid ec out err dur s)) \<and>
        retries_positive (store_after s (mark_failure frd jid ec out err dur s))) \<and>
     (attempts_inv (snd (retry_dlq_job now now' jid s)) \<and>
      retries_positive (snd (retry_dlq_job now now' jid s)))"
proof (intro conjI allI impI)
  fix j s'
  assume a: "create_job crd cmd jid_arg prio ra ta mra bba s = Inr (j, s') \<and> 0 < max_retries j"
  then have c: "create_job crd cmd jid_arg prio ra ta mra bba s = Inr (j, s')"
    and m: "0 < max_retries j" by auto
  from attempts_create_job [OF assms c m]
  show "attempts_inv s'" and "retries_positive s'" by auto
next
  assume lt: "\<forall>j. get_job s jid = Some j \<longrightarrow> attempts j < max_retries j"
  from attempts_mark_failure [OF assms lt]
  show "attempts_inv (store_after s (mark_failure frd jid ec out err dur s))"
    and "retries_positive (store_after s (mark_failure frd jid ec out err dur s))" by auto
qed (simp_all add: attempts_claim_job [OF assms] attempts_mark_success [OF assms]
       attempts_retry_dlq_job [OF assms])

text \<open>The example queue, where job H has attempts 0 of 3.\<close>

theorem attempts_invariant_preserved_witness:
  "attempts_inv queue_store \<and> retries_positive queue_store \<and>
   get_job queue_store ''H'' = Some (new_job ''H'' 3 100 10 2) \<and>
   create_job example_reads ''echo hi'' (Some ''N'') 0 None None None None queue_store =
     Inr (new_job ''N'' 3 0 1 1, queue_store\<lparr>jobs := jobs queue_store @ [new_job ''N'' 3 0 1 1]\<rparr>) \<and>
   attempts_inv (queue_store\<lparr>jobs := jobs queue_store @ [new_job ''N'' 3 0 1 1]\<rparr>) \<and>
   attempts_inv (snd (claim_job 300 20 ''worker-1'' queue_store)) \<and>
   attempts_inv (mark_success 20 ''H'' 0 [] [] 12 queue_store) \<and>
   attempts_inv (store_after queue_store (mark_failure example_failure ''H'' 0 [] [] 12 queue_store)) \<and>
   attempts_inv (snd (retry_dlq_job 20 51 ''H'' queue_store))"
proof -
  have h: "attempts_inv queue_store"
    by (simp add: attempts_inv_def attempts_ok_def queue_store_def new_job_def)
  have p: "retries_positive queue_store"
    by (simp add: retries_positive_def queue_store_def new_job_def)
  have g: "get_job queue_store ''H'' = Some (new_job ''H'' 3 100 10 2)"
    by (simp add: get_job_def queue_store_def new_job_def)
  have lt: "\<forall>j. get_job queue_store ''H'' = Some j \<longrightarrow> attempts j < max_retries j"
    by (simp add: g) (simp add: new_job_def)
  have m: "0 < max_retries (new_job ''N'' 3 0 1 1)"
    by (simp add: new_job_def)
  have c: "create_job example_reads ''echo hi'' (Some ''N'') 0 None None None None queue_store =
     Inr (new_job ''N'' 3 0 1 1, queue_store\<lparr>jobs := jobs queue_store @ [new_job ''N'' 3 0 1 1]\<rparr>)"
    by (simp add: create_job_def get_job_def queue_store_def new_job_def example_reads_def Let_def)
  from h p g lt m c attempts_invariant_preserved [OF h p, where crd = example_reads and cmd = "''echo hi''"
      and jid_arg = "Some ''N''" and prio = 0 and ra = None and ta = None and mra = None
      and bba = None and lts = 300 and now = 20 and wid = "''worker-1''" and jid = "''H''"
      and ec = 0 and out = "[]" and err = "[]" and dur = 12 and frd = example_failure
      and now' = 51]
  show ?thesis by blast
qed

text \<open>
  C3 as stated fails: \<open>mark_failure\<close> does not look at the state of the job. After
  \<open>create_job\<close> with max_retries = 1 and one recorded failure the job is dead with
  attempts = 1; a second recorded failure stores attempts = 2 > max_retries.
\<close>

theorem attempts_invariant_counterexample:
  "create_job example_reads ''false'' (Some ''D'') 0 None None (Some 1) None empty_store =
     Inr ((new_job ''D'' 1 0 1 1)\<lparr>command := ''false''\<rparr>,
          \<lparr> jobs = [(new_job ''D'' 1 0 1 1)\<lparr>command := ''false''\<rparr>], workers = [] \<rparr>) \<and>
   mark_failure example_failure ''D'' 1 [] [] 5
       \<lparr> jobs = [(new_job ''D'' 1 0 1 1)\<lparr>command := ''false''\<rparr>], workers = [] \<rparr> =
     Inr dlq_store \<and>
   attempts_inv dlq_store \<and> retries_positive dlq_store \<and>
   mark_failure example_failure ''D'' 1 [] [] 5 dlq_store =
     Inr \<lparr> jobs = [dead_job\<lparr>attempts := 2\<rparr>], workers = [] \<rparr> \<and>
   \<not> attempts_inv (store_after dlq_store (mark_failure example_failure ''D'' 1 [] [] 5 dlq_store))"
  by (simp add: create_job_def mark_failure_def get_job_def empty_store_def new_job_def
      example_reads_def example_failure_def dlq_store_def dead_job_def commit_def Let_def
      truncate_output_def store_after_def attempts_inv_def attempts_ok_def
      retries_positive_def)

section \<open>C6: registering a worker\<close>

text \<open>
  C6 as stated fails: registering worker-1 a second time gives IntegrityError.
\<close>

theorem register_worker_counterexample:
  "register_worker 1 ''worker-1'' empty_store =
     Inr (\<lparr> worker_id = ''worker-1'', started_at = 1, last_heartbeat = 1, status = ''active'' \<rparr>,
          \<lparr> jobs = [], workers = [\<lparr> worker_id = ''worker-1'', started_at = 1,
                                     last_heartbeat = 1, status = ''active'' \<rparr>] \<rparr>) \<and>
   register_worker 2 ''worker-1''
       \<lparr> jobs = [], workers = [\<lparr> worker_id = ''worker-1'', started_at = 1,
                                  last_heartbeat = 1, status = ''active'' \<rparr>] \<rparr> =
     Inl IntegrityError"
  by (simp add: register_worker_def empty_store_def Let_def)

text \<open>
  C6, amended. For a worker id that is not in the table \<open>register_worker\<close> adds the row
  with started_at = last_heartbeat = now and status active and returns it. For a worker
  id that is already in the table it fails with IntegrityError and writes nothing.
\<close>

theorem register_worker_correct:
  "(wid \<notin> worker_id ` set (workers s) \<longrightarrow>
      register_worker now wid s =
        Inr (\<lparr> worker_id = wid, started_at = now, last_heartbeat = now, status = ''active'' \<rparr>,
             s\<lparr>workers := workers s @
                [\<lparr> worker_id = wid, started_at = now, last_heartbeat = now,
                   status = ''active'' \<rparr>]\<rparr>)) \<and>
   (wid \<in> worker_id ` set (workers s) \<longrightarrow> register_worker now wid s = Inl IntegrityError)"
proof -
  have "find (\<lambda>r. worker_id r = wid) (workers s) = None \<longleftrightarrow> wid \<notin> worker_id ` set (workers s)"
    by (auto simp: find_None_iff)
  then show ?thesis
    by (auto simp: register_worker_def Let_def)
qed

text \<open>With worker-1 registered, worker-2 can register and worker-1 cannot.\<close>

theorem register_worker_correct_witness:
  "''worker-2'' \<notin> worker_id ` set (workers \<lparr> jobs = [], workers = [\<lparr> worker_id = ''worker-1'',
       started_at = 1, last_heartbeat = 1, status = ''active'' \<rparr>] \<rparr>) \<and>
   register_worker 2 ''worker-2''
       \<lparr> jobs = [], workers = [\<lparr> worker_id = ''worker-1'', started_at = 1,
                                  last_heartbeat = 1, status = ''active'' \<rparr>] \<rparr> =
     Inr (\<lparr> worker_id = ''worker-2'', started_at = 2, last_heartbeat = 2, status = ''active'' \<rparr>,
          \<lparr> jobs = [], workers = [\<lparr> worker_id = ''worker-1'', started_at = 1,
                                     last_heartbeat = 1, status = ''active'' \<rparr>,
                                   \<lparr> worker_id = ''worker-2'', started_at = 2,
                                     last_heartbeat = 2, status = ''active'' \<rparr>] \<rparr>) \<and>
   ''worker-1'' \<in> worker_id ` set (workers \<lparr> jobs = [], workers = [\<lparr> worker_id = ''worker-1'',
       started_at = 1, last_heartbeat = 1, status = ''active'' \<rparr>] \<rparr>) \<and>
   register_worker 3 ''worker-1''
       \<lparr> jobs = [], workers = [\<lparr> worker_id = ''worker-1'', started_at = 1,
                                  last_heartbeat = 1, status = ''active'' \<rparr>] \<rparr> =
     Inl IntegrityError"
  using register_worker_correct [of "''worker-2''" "\<lparr> jobs = [], workers = [\<lparr> worker_id = ''worker-1'',
       started_at = 1, last_heartbeat = 1, status = ''active'' \<rparr>] \<rparr>" 2]
    register_worker_correct [of "''worker-1''" "\<lparr> jobs = [], workers = [\<lparr> worker_id = ''worker-1'',
       started_at = 1, last_heartbeat = 1, status = ''active'' \<rparr>] \<rparr>" 3]
  by simp

section \<open>C2: truncation of captured output\<close>

lemma byte_size_replicate: "byte_size (replicate n c) = n * utf8_len c"
  by (induction n) (simp_all add: byte_size_def)

text \<open>
  What is stored has at most 8192 code points, and for ASCII output as many bytes.
\<close>

lemma length_truncate_output:
  "truncate_output out = Some t \<Longrightarrow> length t = min 8192 (length out)"
  by (auto simp: truncate_output_def split: if_splits)

lemma byte_size_ascii: "\<forall>c\<in>set str. c < 128 \<Longrightarrow> byte_size str = length str"
  by (induction str) (simp_all add: byte_size_def utf8_len_def)

text \<open>
  C2. The slice counts code points, not bytes. 5000 copies of U+00E9 are 10000 bytes of
  UTF-8 and are stored whole; of 9000 copies the first 8192 are stored, which are 16384
  bytes. Both \<open>mark_success\<close> and \<open>mark_failure\<close> do so.
\<close>

theorem truncation_counts_code_points:
  "byte_size (replicate 5000 233) = 10000 \<and>
   map_option stdout (get_job (mark_success 40 ''L'' 0 (replicate 5000 233) (replicate 9000 233) 12
       queue_store) ''L'') = Some (Some (replicate 5000 233)) \<and>
   map_option (map_option byte_size \<circ> stdout)
     (get_job (mark_success 40 ''L'' 0 (replicate 5000 233) (replicate 9000 233) 12
       queue_store) ''L'') = Some (Some 10000) \<and>
   map_option (map_option byte_size \<circ> stderr)
     (get_job (mark_success 40 ''L'' 0 (replicate 5000 233) (replicate 9000 233) 12
       queue_store) ''L'') = Some (Some 16384) \<and>
   map_option (map_option byte_size \<circ> stdout)
     (get_job (store_after queue_store (mark_failure example_failure ''L'' 1
        (replicate 5000 233) (replicate 9000 233) 12 queue_store)) ''L'') = Some (Some 10000) \<and>
   map_option (map_option byte_size \<circ> stderr)
     (get_job (store_after queue_store (mark_failure example_failure ''L'' 1
        (replicate 5000 233) (replicate 9000 233) 12 queue_store)) ''L'') = Some (Some 16384)"
proof -
  have g: "get_job queue_store ''L'' = Some (new_job ''L'' 3 0 10 1)"
    by (simp add: get_job_def queue_store_def new_job_def)
  have t1: "truncate_output (replicate 5000 233) = Some (replicate 5000 233)"
    by (simp add: truncate_output_def)
  have t2: "truncate_output (replicate 9000 233) = Some (replicate 8192 233)"
    by (simp add: truncate_output_def)
  have d: "calculate_backoff_delay (random_draw example_failure) 1 2
       (config_max_backoff_s example_failure) = Inr (5 / 2)"
    by (simp add: calculate_backoff_delay_def py_pow_def uniform_def example_failure_def)
  have f: "mark_failure example_failure ''L'' 1 (replicate 5000 233) (replicate 9000 233) 12
        queue_store =
      Inr (commit ((new_job ''L'' 3 0 10 1)\<lparr>attempts := attempts (new_job ''L'' 3 0 10 1) + 1,
                    last_exit_code := Some 1,
                    stdout := truncate_output (replicate 5000 233),
                    stderr := truncate_output (replicate 9000 233),
                    duration_ms := Some 12, updated_at := now_updated example_failure,
                    state := ''failed'', run_at := now_next_run example_failure + 5 / 2,
                    locked_by := None, locked_at := None\<rparr>) queue_store)"
    by (rule mark_failure_retry [OF g]) (simp_all add: new_job_def d)
  have id: "job_id (new_job ''L'' 3 0 10 1) = ''L''" by (simp add: new_job_def)
  show ?thesis
    by (simp add: get_job_mark_success [OF g] f store_after_def get_job_commit_same [OF g] id
        t1 t2 byte_size_replicate utf8_len_def)
qed

end
